theory Spec2Isabelle
  imports Main
begin

section \<open>Values, entries and the cache object\<close>

text \<open>
  The cache of \<^verbatim>\<open>src/ttl-cache.ts\<close> is generic in the type \<^verbatim>\<open>T\<close> of its values, and
  the only thing it ever asks of a value is its truthiness (\<^verbatim>\<open>!value\<close>). The values are
  therefore the JavaScript values, told apart as far as truthiness does: numbers are the
  integral ones (zero is the falsy number; a fractional or infinite number is truthy like
  any other non-zero number, and \<^verbatim>\<open>-0\<close> is falsy like \<^verbatim>\<open>0\<close>) together with \<^verbatim>\<open>NaN\<close>, and
  an object is a reference.
\<close>

datatype jsval =
    JUndefined
  | JNull
  | JBool bool
  | JNumber int
  | JNaN
  | JBigInt int
  | JString string
  | JObject nat

text \<open>\<^verbatim>\<open>!v\<close> holds exactly for the falsy values of the language.\<close>

fun falsy :: "jsval \<Rightarrow> bool" where
  "falsy JUndefined = True"
| "falsy JNull = True"
| "falsy (JBool b) = (\<not> b)"
| "falsy (JNumber n) = (n = 0)"
| "falsy JNaN = True"
| "falsy (JBigInt n) = (n = 0)"
| "falsy (JString s) = (s = [])"
| "falsy (JObject r) = False"

text \<open>
  \<^verbatim>\<open>interface CacheEntry<T> { value: T; ttl: number }\<close>. An entry is an object: the Map
  holds it by reference, \<^verbatim>\<open>_get\<close> hands the same reference to its caller, and neither
  field is \<^verbatim>\<open>readonly\<close>. The address tells one entry object from another; every object
  literal of the class makes an object at an address that was not in use.
\<close>

record CacheEntry =
  entry_address :: nat
  entry_value :: jsval
  entry_ttl :: int

text \<open>
  The two fields of \<^verbatim>\<open>class TTLCache\<close>: the read-only \<^verbatim>\<open>ttl\<close> and the private
  \<^verbatim>\<open>Map<string, CacheEntry<T>>\<close>. Nothing in the class iterates over the map, so its
  insertion order is not observable and the map is a partial function. An entry object
  is held by one key of the map at most, so the map carries the objects themselves, each
  with its address.
\<close>

record TTLCache =
  ttl :: int
  cache :: "string \<rightharpoonup> CacheEntry"

section \<open>The host: a clock and the pending timeouts\<close>

text \<open>
  \<^verbatim>\<open>setTimeout(() => this.remove(key), this.ttl)\<close> hands a closure to the host and
  returns a \<^verbatim>\<open>NodeJS.Timeout\<close>. A pending timeout records its handle, what the closure
  captured (the key), the time at which it was scheduled and the delay that was asked
  for. Time is in milliseconds.
\<close>

record timer =
  timer_handle :: nat
  timer_key :: string
  timer_created :: nat
  timer_delay :: int

record runtime =
  this :: TTLCache
  next_address :: nat
  clock :: nat
  timers :: "timer list"
  next_handle :: nat

text \<open>\<^verbatim>\<open>throw Error(msg)\<close>\<close>

datatype error = Error string

type_synonym 'a outcome = "error + ('a \<times> runtime)"

section \<open>The methods\<close>

text \<open>\<^verbatim>\<open>constructor(ttl)\<close>, run on a host whose clock shows \<open>0\<close> and that has nothing scheduled.\<close>

definition TTLCache_new :: "int \<Rightarrow> runtime" where
  "TTLCache_new ttl0 =
     \<lparr>this = \<lparr>ttl = ttl0, cache = Map.empty\<rparr>,
      next_address = 0, clock = 0, timers = [], next_handle = 0\<rparr>"

text \<open>
  \<^verbatim>\<open>_discard(key)\<close> (here \<open>discard\<close>): schedules the removal and returns the handle of
  the timeout.
\<close>

definition discard :: "runtime \<Rightarrow> string \<Rightarrow> nat \<times> runtime" where
  "discard s key =
     (next_handle s,
      s\<lparr>timers := timers s @
          [\<lparr>timer_handle = next_handle s, timer_key = key,
            timer_created = clock s, timer_delay = ttl (this s)\<rparr>],
        next_handle := Suc (next_handle s)\<rparr>)"

text \<open>\<^verbatim>\<open>add\<close> drops the handle that \<^verbatim>\<open>_discard\<close> returns.\<close>

definition add :: "runtime \<Rightarrow> string \<Rightarrow> jsval \<Rightarrow> bool outcome" where
  "add s key v =
     (if key = [] then Inl (Error ''A key is required!'')
      else if falsy v then Inl (Error ''A value is required!'')
      else if cache (this s) key \<noteq> None then Inr (True, s)
      else Inr (True,
        snd (discard
          (s\<lparr>this := (this s)\<lparr>cache := (cache (this s))
                (key \<mapsto> \<lparr>entry_address = next_address s, entry_value = v,
                          entry_ttl = ttl (this s)\<rparr>)\<rparr>,
             next_address := Suc (next_address s)\<rparr>)
          key)))"

text \<open>
  \<^verbatim>\<open>get\<close> and \<^verbatim>\<open>_get\<close> (here \<open>get_entry\<close>): the result of \<^verbatim>\<open>this.cache.get(key)\<close>
  is an entry object or \<^verbatim>\<open>undefined\<close>, so \<^verbatim>\<open>!result\<close> holds exactly when the key is not
  in the map. The \<^verbatim>\<open>null\<close> that \<^verbatim>\<open>get\<close> returns is the value \<open>JNull\<close>; the one that
  \<^verbatim>\<open>_get\<close> returns in place of an entry is \<open>None\<close>. What \<^verbatim>\<open>_get\<close> returns otherwise
  is the object that the map holds, at its address.
\<close>

definition get :: "runtime \<Rightarrow> string \<Rightarrow> jsval outcome" where
  "get s key =
     (if key = [] then Inl (Error ''A key is required'')
      else case cache (this s) key of
             None \<Rightarrow> Inr (JNull, s)
           | Some result \<Rightarrow> Inr (entry_value result, s))"

definition get_entry :: "runtime \<Rightarrow> string \<Rightarrow> CacheEntry option outcome" where
  "get_entry s key =
     (if key = [] then Inl (Error ''A key is required'')
      else case cache (this s) key of
             None \<Rightarrow> Inr (None, s)
           | Some result \<Rightarrow> Inr (Some result, s))"

text \<open>
  \<^verbatim>\<open>update\<close> does not write into the entry it found: it puts a new object
  \<^verbatim>\<open>{ value, ttl: current.ttl }\<close> in its place.
\<close>

definition update :: "runtime \<Rightarrow> string \<Rightarrow> jsval \<Rightarrow> bool outcome" where
  "update s key v =
     (if key = [] then Inl (Error ''A key is required!'')
      else if falsy v then Inl (Error ''A value is required!'')
      else case get_entry s key of
             Inl e \<Rightarrow> Inl e
           | Inr (None, s') \<Rightarrow> Inr (False, s')
           | Inr (Some current, s') \<Rightarrow>
               Inr (True,
                 s'\<lparr>this := (this s')\<lparr>cache := (cache (this s'))
                       (key \<mapsto> \<lparr>entry_address = next_address s', entry_value = v,
                                 entry_ttl = entry_ttl current\<rparr>)\<rparr>,
                    next_address := Suc (next_address s')\<rparr>))"

definition remove :: "runtime \<Rightarrow> string \<Rightarrow> bool outcome" where
  "remove s key =
     (if key = [] then Inl (Error ''A key is required!'')
      else if cache (this s) key = None then Inr (False, s)
      else Inr (True, s\<lparr>this := (this s)\<lparr>cache := (cache (this s))(key := None)\<rparr>\<rparr>))"

section \<open>What a caller can do with an entry object\<close>

text \<open>
  A caller that holds the object \<^verbatim>\<open>_get\<close> returned can assign to its fields:
  \<^verbatim>\<open>entry.value = v\<close> and \<^verbatim>\<open>entry.ttl = n\<close>. The assignment shows in the cache if the
  map still holds the object at that address, and nowhere if \<^verbatim>\<open>update\<close> has replaced
  the object or a removal has dropped it. A caller has an entry object from \<^verbatim>\<open>_get\<close>
  alone, and \<^verbatim>\<open>_get\<close> changes nothing, so an assignment to the object at an address
  of the map is one that some caller can make.
\<close>

definition assign_value :: "runtime \<Rightarrow> nat \<Rightarrow> jsval \<Rightarrow> runtime" where
  "assign_value s a v =
     s\<lparr>this := (this s)\<lparr>cache := (\<lambda>k.
        map_option (\<lambda>e. if entry_address e = a then e\<lparr>entry_value := v\<rparr> else e)
          (cache (this s) k))\<rparr>\<rparr>"

definition assign_ttl :: "runtime \<Rightarrow> nat \<Rightarrow> int \<Rightarrow> runtime" where
  "assign_ttl s a n =
     s\<lparr>this := (this s)\<lparr>cache := (\<lambda>k.
        map_option (\<lambda>e. if entry_address e = a then e\<lparr>entry_ttl := n\<rparr> else e)
          (cache (this s) k))\<rparr>\<rparr>"

section \<open>Executions\<close>

text \<open>
  \<^verbatim>\<open>setTimeout\<close> belongs to the host, which the type \<^verbatim>\<open>NodeJS.Timeout\<close> names as Node.
  Node runs a timeout no earlier than its delay, and it does not take every number for a
  delay: a delay that is larger than \<open>2147483647\<close> or less than \<open>1\<close> is set to \<open>1\<close>.
\<close>

definition host_delay :: "int \<Rightarrow> int" where
  "host_delay d = (if 1 \<le> d \<and> d \<le> 2147483647 then d else 1)"

definition due :: "runtime \<Rightarrow> timer \<Rightarrow> bool" where
  "due s t = (int (timer_created t) + host_delay (timer_delay t) \<le> int (clock s))"

text \<open>The host takes the timeout at position \<open>i\<close> off its list before it runs the closure.\<close>

definition consume :: "runtime \<Rightarrow> nat \<Rightarrow> runtime" where
  "consume s i = s\<lparr>timers := take i (timers s) @ drop (Suc i) (timers s)\<rparr>"

text \<open>
  The timeout at position \<open>i\<close> fires: the closure \<^verbatim>\<open>() => this.remove(key)\<close> runs and its
  result is dropped; an error thrown by \<open>remove\<close> would leave the closure uncaught. A
  timeout that is not due, or a position that holds none, does not fire.
\<close>

definition fire :: "runtime \<Rightarrow> nat \<Rightarrow> error + runtime" where
  "fire s i =
     (if i < length (timers s) \<and> due s (timers s ! i)
      then case remove (consume s i) (timer_key (timers s ! i)) of
             Inl e \<Rightarrow> Inl e
           | Inr (_, s') \<Rightarrow> Inr s'
      else Inr s)"

text \<open>
  What can happen to a cache: a caller invokes a method or assigns to a field of an entry
  object, time passes, or a timeout fires. A method that throws has changed nothing when
  it throws, so the state after the call is the state before it.
\<close>

datatype event =
    Add string jsval
  | Get string
  | GetEntry string
  | Update string jsval
  | Remove string
  | AssignValue nat jsval
  | AssignTtl nat int
  | Advance nat
  | Fire nat

definition after :: "runtime \<Rightarrow> 'a outcome \<Rightarrow> runtime" where
  "after s r = (case r of Inl _ \<Rightarrow> s | Inr (_, s') \<Rightarrow> s')"

fun step :: "runtime \<Rightarrow> event \<Rightarrow> runtime" where
  "step s (Add key v) = after s (add s key v)"
| "step s (Get key) = after s (get s key)"
| "step s (GetEntry key) = after s (get_entry s key)"
| "step s (Update key v) = after s (update s key v)"
| "step s (Remove key) = after s (remove s key)"
| "step s (AssignValue a v) = assign_value s a v"
| "step s (AssignTtl a n) = assign_ttl s a n"
| "step s (Advance d) = s\<lparr>clock := clock s + d\<rparr>"
| "step s (Fire i) = (case fire s i of Inl _ \<Rightarrow> consume s i | Inr s' \<Rightarrow> s')"

fun run :: "runtime \<Rightarrow> event list \<Rightarrow> runtime" where
  "run s [] = s"
| "run s (ev # evs) = run (step s ev) evs"

text \<open>
  When each key of the map was inserted is not stored by the cache. It is read off an
  execution: a key that a step brings into the map was inserted at the time of that step,
  and the timeouts of that insertion have the handles from the next free one on; a key
  that stays in the map keeps both, and a key that is not in the map has none.
\<close>

type_synonym births = "string \<rightharpoonup> nat \<times> nat"

type_synonym tracked = "runtime \<times> births"

definition inserted_at :: "runtime \<Rightarrow> runtime \<Rightarrow> births \<Rightarrow> births" where
  "inserted_at s s' born k =
     (if cache (this s') k = None then None
      else if cache (this s) k = None then Some (clock s, next_handle s)
      else born k)"

definition track :: "tracked \<Rightarrow> event \<Rightarrow> tracked" where
  "track sb ev = (step (fst sb) ev, inserted_at (fst sb) (step (fst sb) ev) (snd sb))"

fun run_tracked :: "tracked \<Rightarrow> event list \<Rightarrow> tracked" where
  "run_tracked sb [] = sb"
| "run_tracked sb (ev # evs) = run_tracked (track sb ev) evs"




text \<open>
  The expiration as the specification words it: it deletes the key from the store if it
  is present and ignores its absence. It has no result and no error, and it is given the
  key alone.
\<close>

definition expire_spec :: "runtime \<Rightarrow> string \<Rightarrow> runtime" where
  "expire_spec s key =
     (if cache (this s) key \<noteq> None
      then s\<lparr>this := (this s)\<lparr>cache := (cache (this s))(key := None)\<rparr>\<rparr>
      else s)"



section \<open>What holds of every state the cache can reach\<close>

text \<open>
  The cache was built with \<open>ttl0\<close> and no entry has an empty key; every pending timeout
  has a non-empty key, asks for the delay \<open>ttl0\<close>, was not scheduled in the future and
  has a handle that is no longer free.
\<close>

definition sound :: "int \<Rightarrow> runtime \<Rightarrow> bool" where
  "sound ttl0 s =
     (ttl (this s) = ttl0
      \<and> (\<forall>k e. cache (this s) k = Some e \<longrightarrow> k \<noteq> [])
      \<and> (\<forall>t \<in> set (timers s).
             timer_key t \<noteq> [] \<and> timer_delay t = ttl0 \<and> timer_created t \<le> clock s
             \<and> timer_handle t < next_handle s))"





text \<open>
  An execution that inserts a key at time \<open>0\<close>, removes it by hand at time \<open>50\<close>, inserts
  it again at once, and lets the clock reach \<open>100\<close>.
\<close>

definition reinsertion :: "event list" where
  "reinsertion =
     [Add ''a'' (JNumber 1), Advance 50, Remove ''a'', Add ''a'' (JNumber 2), Advance 50]"


section \<open>Auxiliary facts\<close>

lemma set_without: "set (take i xs @ drop (Suc i) xs) \<subseteq> set xs"
  by (auto dest: in_set_takeD in_set_dropD)




lemma sound_new: "sound ttl0 (TTLCache_new ttl0)"
  by (simp add: sound_def TTLCache_new_def)

lemma sound_add: "sound ttl0 s \<Longrightarrow> sound ttl0 (after s (add s key v))"
  by (auto simp: sound_def after_def add_def discard_def less_Suc_eq split: if_splits)

lemma after_get: "after s (get s key) = s"
  by (simp add: after_def get_def split: option.splits)

lemma after_get_entry: "after s (get_entry s key) = s"
  by (simp add: after_def get_entry_def split: option.splits)

lemma sound_update: "sound ttl0 s \<Longrightarrow> sound ttl0 (after s (update s key v))"
  by (auto simp: sound_def after_def update_def get_entry_def split: if_splits option.splits)

lemma sound_remove: "sound ttl0 s \<Longrightarrow> sound ttl0 (after s (remove s key))"
  by (auto simp: sound_def after_def remove_def split: if_splits)

lemma sound_assign_value: "sound ttl0 s \<Longrightarrow> sound ttl0 (assign_value s a v)"
  by (auto simp: sound_def assign_value_def)

lemma sound_assign_ttl: "sound ttl0 s \<Longrightarrow> sound ttl0 (assign_ttl s a n)"
  by (auto simp: sound_def assign_ttl_def)

lemma sound_consume: "sound ttl0 s \<Longrightarrow> sound ttl0 (consume s i)"
  using set_without [of i "timers s"] by (auto simp: sound_def consume_def)

lemma remove_total:
  "key \<noteq> [] \<Longrightarrow> remove s key = Inr (cache (this s) key \<noteq> None, expire_spec s key)"
  by (simp add: remove_def expire_spec_def)

lemma sound_expire: "sound ttl0 s \<Longrightarrow> sound ttl0 (expire_spec s key)"
  by (auto simp: sound_def expire_spec_def split: if_splits)

lemma fire_enabled:
  assumes "sound ttl0 s" and "i < length (timers s)" and "due s (timers s ! i)"
  shows "fire s i = Inr (expire_spec (consume s i) (timer_key (timers s ! i)))"
proof -
  have "timer_key (timers s ! i) \<noteq> []"
    using assms(1,2) by (simp add: sound_def)
  then show ?thesis
    using assms(2,3) by (simp add: fire_def remove_total)
qed

lemma fire_disabled:
  "\<not> (i < length (timers s) \<and> due s (timers s ! i)) \<Longrightarrow> fire s i = Inr s"
  by (auto simp: fire_def)

lemma step_fire:
  assumes "sound ttl0 s"
  shows "step s (Fire i) =
    (if i < length (timers s) \<and> due s (timers s ! i)
     then expire_spec (consume s i) (timer_key (timers s ! i)) else s)"
  using fire_enabled [OF assms, of i] fire_disabled [of i s] by auto

lemma sound_step: "sound ttl0 s \<Longrightarrow> sound ttl0 (step s ev)"
proof (cases ev)
  case (Fire i)
  assume w: "sound ttl0 s"
  show ?thesis unfolding Fire step_fire [OF w]
    using w by (simp add: sound_expire sound_consume)
next
  case (Advance d)
  assume "sound ttl0 s"
  then show ?thesis unfolding Advance by (auto simp: sound_def)
qed (simp_all add: sound_add after_get after_get_entry sound_update sound_remove
    sound_assign_value sound_assign_ttl)

lemma sound_run: "sound ttl0 s \<Longrightarrow> sound ttl0 (run s evs)"
  by (induction evs arbitrary: s) (simp_all add: sound_step)

lemma sound_reachable: "sound ttl0 (run (TTLCache_new ttl0) evs)"
  by (rule sound_run) (rule sound_new)

















section \<open>Insertion\<close>

text \<open>
  C1. For a non-empty key that is not in the cache and a truthy value, \<open>add\<close> returns
  \<open>true\<close>, and a \<open>get\<close> of the key in the state that \<open>add\<close> leaves (no timeout has
  fired in between) returns the value.
\<close>

theorem add_then_get:
  assumes "key \<noteq> []" and "\<not> falsy v" and "cache (this s) key = None"
  shows "\<exists>s'. add s key v = Inr (True, s') \<and> get s' key = Inr (v, s')"
  using assms by (simp add: add_def get_def discard_def)

theorem add_then_get_witness:
  "\<exists>s'. add (TTLCache_new 50) ''a'' (JString ''x'') = Inr (True, s')
     \<and> get s' ''a'' = Inr (JString ''x'', s')"
  using add_then_get [of "''a''" "JString ''x''" "TTLCache_new 50"]
  by (simp add: TTLCache_new_def)

text \<open>
  C3. For a non-empty key that is in the cache and a truthy value, \<open>add\<close> returns \<open>true\<close>
  and the state it leaves is the state it found: the entry keeps its value and its
  \<open>ttl\<close>, no timeout is scheduled, and \<open>get\<close> still returns the value that was stored
  first.
\<close>

theorem add_existing_noop:
  assumes "key \<noteq> []" and "\<not> falsy v" and "cache (this s) key = Some e"
  shows "add s key v = Inr (True, s) \<and> get s key = Inr (entry_value e, s)"
  using assms by (simp add: add_def get_def)

theorem add_existing_noop_witness:
  "add (step (TTLCache_new 50) (Add ''a'' (JString ''x''))) ''a'' (JString ''y'')
     = Inr (True, step (TTLCache_new 50) (Add ''a'' (JString ''x'')))
   \<and> get (step (TTLCache_new 50) (Add ''a'' (JString ''x''))) ''a''
     = Inr (JString ''x'', step (TTLCache_new 50) (Add ''a'' (JString ''x'')))"
  using add_existing_noop [of "''a''" "JString ''y''"
      "step (TTLCache_new 50) (Add ''a'' (JString ''x''))"
      "\<lparr>entry_address = 0, entry_value = JString ''x'', entry_ttl = 50\<rparr>"]
  by (simp add: TTLCache_new_def add_def after_def discard_def)

section \<open>Pending removals\<close>




section \<open>Update, removal and lookup\<close>

text \<open>
  C4. For a non-empty key and a truthy value: when the key is not in the cache,
  \<open>update\<close> returns \<open>false\<close> and leaves the state as it found it; when the key is in the
  cache, \<open>update\<close> returns \<open>true\<close>, the entry of the key has the new value and the
  \<open>ttl\<close> field it had, the entries of all other keys are unchanged, and so are the
  \<open>ttl\<close> of the cache, the pending timeouts, the next free handle and the clock.
\<close>

theorem update_spec:
  assumes "key \<noteq> []" and "\<not> falsy v"
  shows "(cache (this s) key = None \<longrightarrow> update s key v = Inr (False, s))
       \<and> (\<forall>e. cache (this s) key = Some e \<longrightarrow>
            (\<exists>s'. update s key v = Inr (True, s')
               \<and> cache (this s') key
                   = Some \<lparr>entry_address = next_address s, entry_value = v,
                           entry_ttl = entry_ttl e\<rparr>
               \<and> (\<forall>k. k \<noteq> key \<longrightarrow> cache (this s') k = cache (this s) k)
               \<and> ttl (this s') = ttl (this s)
               \<and> timers s' = timers s
               \<and> next_handle s' = next_handle s
               \<and> clock s' = clock s))"
  using assms by (simp add: update_def get_entry_def)

theorem update_spec_witness:
  "update (TTLCache_new 50) ''b'' (JNumber 7) = Inr (False, TTLCache_new 50)
   \<and> (\<exists>s'. update (step (TTLCache_new 50) (Add ''a'' (JNumber 1))) ''a'' (JNumber 7)
            = Inr (True, s')
        \<and> cache (this s') ''a''
            = Some \<lparr>entry_address = 1, entry_value = JNumber 7, entry_ttl = 50\<rparr>
        \<and> timers s' = timers (step (TTLCache_new 50) (Add ''a'' (JNumber 1))))"
proof -
  have a: "cache (this (TTLCache_new 50)) ''b'' = None"
    by (simp add: TTLCache_new_def)
  have b: "cache (this (step (TTLCache_new 50) (Add ''a'' (JNumber 1)))) ''a''
             = Some \<lparr>entry_address = 0, entry_value = JNumber 1, entry_ttl = 50\<rparr>"
    by (simp add: TTLCache_new_def add_def after_def discard_def)
  have n: "next_address (step (TTLCache_new 50) (Add ''a'' (JNumber 1))) = 1"
    by (simp add: TTLCache_new_def add_def after_def discard_def)
  have k: "''a'' \<noteq> []" "''b'' \<noteq> []" and v: "\<not> falsy (JNumber 7)"
    by simp_all
  show ?thesis
    using update_spec [OF k(2) v, of "TTLCache_new 50"]
      update_spec [OF k(1) v, of "step (TTLCache_new 50) (Add ''a'' (JNumber 1))"] a b n
    by auto
qed

text \<open>
  C5. After an \<open>add\<close> of a key that returned \<open>true\<close>, \<open>remove\<close> of the key returns
  \<open>true\<close>, a \<open>get\<close> of the key then returns \<open>null\<close>, and a second \<open>remove\<close> of the
  key returns \<open>false\<close> and leaves the state as it found it.
\<close>

theorem add_remove_get_remove:
  assumes "add s key v = Inr (True, s1)"
  shows "\<exists>s2. remove s1 key = Inr (True, s2)
            \<and> get s2 key = Inr (JNull, s2)
            \<and> remove s2 key = Inr (False, s2)"
  using assms by (auto simp: add_def remove_def get_def discard_def split: if_splits)

theorem add_remove_get_remove_witness:
  "\<exists>s2. remove (step (TTLCache_new 50) (Add ''a'' (JNumber 1))) ''a'' = Inr (True, s2)
       \<and> get s2 ''a'' = Inr (JNull, s2)
       \<and> remove s2 ''a'' = Inr (False, s2)"
proof -
  have "add (TTLCache_new 50) ''a'' (JNumber 1)
          = Inr (True, step (TTLCache_new 50) (Add ''a'' (JNumber 1)))"
    by (simp add: TTLCache_new_def add_def after_def)
  then show ?thesis
    by (rule add_remove_get_remove)
qed

text \<open>
  C9. For a non-empty key, \<open>get\<close> returns a result and the state it leaves is the state
  it found (entries, \<open>ttl\<close>, pending timeouts and clock alike); the same \<open>get\<close> made
  again returns the same result.
\<close>

theorem get_changes_nothing:
  assumes "key \<noteq> []"
  shows "\<exists>r. get s key = Inr (r, s) \<and> step s (Get key) = s
            \<and> get (step s (Get key)) key = Inr (r, s)"
  using assms by (simp add: get_def after_def split: option.splits)

theorem get_changes_nothing_witness:
  "get (step (TTLCache_new 50) (Add ''a'' (JNumber 1))) ''a''
     = Inr (JNumber 1, step (TTLCache_new 50) (Add ''a'' (JNumber 1)))
   \<and> step (step (TTLCache_new 50) (Add ''a'' (JNumber 1))) (Get ''a'')
     = step (TTLCache_new 50) (Add ''a'' (JNumber 1))"
proof -
  have k: "''a'' \<noteq> []" by simp
  have "get (step (TTLCache_new 50) (Add ''a'' (JNumber 1))) ''a''
     = Inr (JNumber 1, step (TTLCache_new 50) (Add ''a'' (JNumber 1)))"
    by (simp add: get_def TTLCache_new_def add_def after_def discard_def)
  then show ?thesis
    using get_changes_nothing [OF k, of "step (TTLCache_new 50) (Add ''a'' (JNumber 1))"]
    by simp
qed

section \<open>Errors\<close>

text \<open>
  C6. \<open>add\<close> and \<open>update\<close> throw exactly when the key is empty or the value is falsy;
  \<open>get\<close>, \<open>_get\<close> and \<open>remove\<close> throw exactly when the key is empty. A lookup, an
  update or a removal of a non-empty key that is not in the cache throws nothing: it
  returns \<open>null\<close>, \<open>false\<close> and \<open>false\<close>.
\<close>

theorem errors_exactly_on_bad_arguments:
  "isl (add s key v) = (key = [] \<or> falsy v)
   \<and> isl (update s key v) = (key = [] \<or> falsy v)
   \<and> isl (get s key) = (key = [])
   \<and> isl (get_entry s key) = (key = [])
   \<and> isl (remove s key) = (key = [])
   \<and> (key \<noteq> [] \<and> cache (this s) key = None \<longrightarrow>
        get s key = Inr (JNull, s)
        \<and> remove s key = Inr (False, s)
        \<and> (\<not> falsy v \<longrightarrow> update s key v = Inr (False, s)))"
  by (simp add: add_def update_def get_def get_entry_def remove_def split: option.splits)

theorem errors_exactly_on_bad_arguments_witness:
  "\<not> isl (add (TTLCache_new 50) ''a'' (JNumber 1))
   \<and> isl (add (TTLCache_new 50) [] (JNumber 1))
   \<and> isl (update (TTLCache_new 50) ''a'' (JNumber 0))
   \<and> get (TTLCache_new 50) ''a'' = Inr (JNull, TTLCache_new 50)
   \<and> remove (TTLCache_new 50) ''a'' = Inr (False, TTLCache_new 50)
   \<and> update (TTLCache_new 50) ''a'' (JNumber 1) = Inr (False, TTLCache_new 50)"
proof -
  have a: "cache (this (TTLCache_new 50)) ''a'' = None"
    by (simp add: TTLCache_new_def)
  show ?thesis
    using errors_exactly_on_bad_arguments [of "TTLCache_new 50" "''a''" "JNumber 1"]
      errors_exactly_on_bad_arguments [of "TTLCache_new 50" "[]" "JNumber 1"]
      errors_exactly_on_bad_arguments [of "TTLCache_new 50" "''a''" "JNumber 0"] a
    by simp
qed

section \<open>Expiration\<close>

text \<open>
  C7. In every state that an execution reaches from a new cache, a pending timeout that
  is due fires without an error, and what it does to the state is what the specification
  says of the expiration (delete the key if it is there, do nothing if it is not) and
  what \<open>remove\<close> of the same key does: the state after the timeout has fired is the state
  after the call of \<open>remove\<close>, less the timeout that has fired. The time at which the
  timeout was scheduled plays no part.
\<close>

theorem fire_is_remove:
  assumes "s = run (TTLCache_new ttl0) evs"
    and "i < length (timers s)" and "due s (timers s ! i)"
  shows "fire s i = Inr (expire_spec (consume s i) (timer_key (timers s ! i)))
       \<and> remove (consume s i) (timer_key (timers s ! i))
           = Inr (cache (this s) (timer_key (timers s ! i)) \<noteq> None,
                  expire_spec (consume s i) (timer_key (timers s ! i)))
       \<and> step s (Fire i) = consume (step s (Remove (timer_key (timers s ! i)))) i"
proof -
  let ?k = "timer_key (timers s ! i)"
  have w: "sound ttl0 s"
    unfolding assms(1) by (rule sound_reachable)
  then have k: "?k \<noteq> []"
    using assms(2) by (simp add: sound_def)
  have f: "fire s i = Inr (expire_spec (consume s i) ?k)"
    using w assms(2,3) by (rule fire_enabled)
  have r: "remove (consume s i) ?k
             = Inr (cache (this s) ?k \<noteq> None, expire_spec (consume s i) ?k)"
    using remove_total [OF k, of "consume s i"] by (simp add: consume_def)
  have "step s (Fire i) = expire_spec (consume s i) ?k"
    using f by simp
  also have "\<dots> = consume (step s (Remove ?k)) i"
    using k by (simp add: remove_def after_def expire_spec_def consume_def)
  finally show ?thesis using f r by simp
qed

theorem fire_is_remove_witness:
  "fire (run (TTLCache_new 50) [Add ''a'' (JNumber 1), Advance 50]) 0
     = Inr (expire_spec (consume (run (TTLCache_new 50) [Add ''a'' (JNumber 1), Advance 50]) 0)
         ''a'')
   \<and> cache (this (step (run (TTLCache_new 50) [Add ''a'' (JNumber 1), Advance 50]) (Fire 0)))
       ''a'' = None"
proof -
  let ?s = "run (TTLCache_new 50) [Add ''a'' (JNumber 1), Advance 50]"
  have l: "0 < length (timers ?s)"
    by (simp add: TTLCache_new_def add_def after_def discard_def)
  have d: "due ?s (timers ?s ! 0)"
    by (simp add: TTLCache_new_def add_def after_def discard_def due_def host_delay_def)
  have k: "timer_key (timers ?s ! 0) = ''a''"
    by (simp add: TTLCache_new_def add_def after_def discard_def)
  show ?thesis
    using fire_is_remove [OF refl l d] unfolding k
    by (simp add: expire_spec_def)
qed

text \<open>
  C8. In the execution \<open>reinsertion\<close> on a cache with \<open>ttl = 100\<close>, the key is inserted
  at time \<open>0\<close>, removed by hand and inserted again at time \<open>50\<close>. At time \<open>100\<close> the
  entry of the second insertion is in the map and the timeout of the first insertion is
  still pending, next to the one of the second. It is due; it fires and deletes the
  entry, at a time that is less than \<open>ttl\<close> after the second insertion.
\<close>

theorem stale_timer_deletes_newer_entry:
  "cache (this (run (TTLCache_new 100) reinsertion)) ''a''
     = Some \<lparr>entry_address = 1, entry_value = JNumber 2, entry_ttl = 100\<rparr>
   \<and> snd (run_tracked (TTLCache_new 100, Map.empty) reinsertion) ''a'' = Some (50, 1)
   \<and> clock (run (TTLCache_new 100) reinsertion) = 100
   \<and> timers (run (TTLCache_new 100) reinsertion)
     = [\<lparr>timer_handle = 0, timer_key = ''a'', timer_created = 0, timer_delay = 100\<rparr>,
        \<lparr>timer_handle = 1, timer_key = ''a'', timer_created = 50, timer_delay = 100\<rparr>]
   \<and> cache (this (step (run (TTLCache_new 100) reinsertion) (Fire 0))) ''a'' = None
   \<and> timers (step (run (TTLCache_new 100) reinsertion) (Fire 0))
     = [\<lparr>timer_handle = 1, timer_key = ''a'', timer_created = 50, timer_delay = 100\<rparr>]
   \<and> int (clock (step (run (TTLCache_new 100) reinsertion) (Fire 0))) < 50 + 100"
proof -
  have r: "run (TTLCache_new 100) reinsertion
      = \<lparr>this = \<lparr>ttl = 100,
           cache = [''a'' \<mapsto>
             \<lparr>entry_address = 1, entry_value = JNumber 2, entry_ttl = 100\<rparr>]\<rparr>,
         next_address = 2,
         clock = 100,
         timers =
           [\<lparr>timer_handle = 0, timer_key = ''a'', timer_created = 0, timer_delay = 100\<rparr>,
            \<lparr>timer_handle = 1, timer_key = ''a'', timer_created = 50, timer_delay = 100\<rparr>],
         next_handle = 2\<rparr>"
    by (simp add: reinsertion_def TTLCache_new_def add_def remove_def after_def discard_def)
  have b: "snd (run_tracked (TTLCache_new 100, Map.empty) reinsertion) ''a'' = Some (50, 1)"
    by (simp add: reinsertion_def track_def inserted_at_def TTLCache_new_def add_def
        remove_def after_def discard_def)
  have f: "step (run (TTLCache_new 100) reinsertion) (Fire 0)
      = \<lparr>this = \<lparr>ttl = 100, cache = Map.empty\<rparr>,
         next_address = 2,
         clock = 100,
         timers =
           [\<lparr>timer_handle = 1, timer_key = ''a'', timer_created = 50, timer_delay = 100\<rparr>],
         next_handle = 2\<rparr>"
    unfolding r by (simp add: fire_def due_def host_delay_def consume_def remove_def)
  show ?thesis
    unfolding f b unfolding r by simp
qed

section \<open>Stored values\<close>




end
